theory Spec2Isabelle
  imports Main "HOL-Library.Word" "HOL-Library.Sublist"
begin

section \<open>Data model\<close>

text \<open>
  The interposition routing element is \<^verbatim>\<open>interposeServer\<close> of package interpose
  (the second document of \<^verbatim>\<open>src/unnamed/part_000\<close>). Pointers of the Go code are options:
  \<open>None\<close> is \<^verbatim>\<open>nil\<close>. A Go panic is a value of its own, so that an index out of
  range is a branch of the model and not an unspecified list access.
\<close>

datatype panic = IndexOutOfRange | NilDereference

datatype 'a outcome = Panicked panic | Returned 'a

text \<open>
  The messages built by \<^verbatim>\<open>errors.Errorf\<close>, one constructor for each call site, and
  the errors handed back by the rest of the chain.
\<close>

datatype error =
    PathSegmentError
  | ConnectionIdError
  | AllCrossNSEFailed
  | EndpointURLMismatch
  | NoActiveConnection
  | ChainError string

text \<open>
  The messages of the networkservice API that the element reads. The path index is a
  \<^verbatim>\<open>uint32\<close>; the segments are a slice of pointers.
\<close>

record PathSegment =
  Name :: string
  Id_seg :: string

record Path =
  Index :: "32 word"
  PathSegments :: "PathSegment option list"

record Connection =
  Id_conn :: string
  Path :: "Path option"

record NetworkServiceRequest =
  Connection :: "Connection option"

record NetworkServiceEndpoint =
  Url :: string

text \<open>The generated getters are safe on \<^verbatim>\<open>nil\<close> and return the zero value there.\<close>

definition GetConnection :: "NetworkServiceRequest option \<Rightarrow> Connection option" where
  "GetConnection request = (case request of None \<Rightarrow> None | Some r \<Rightarrow> Connection r)"

definition GetId :: "Connection option \<Rightarrow> string" where
  "GetId conn = (case conn of None \<Rightarrow> [] | Some c \<Rightarrow> Id_conn c)"

definition GetPath :: "Connection option \<Rightarrow> Path option" where
  "GetPath conn = (case conn of None \<Rightarrow> None | Some c \<Rightarrow> Path c)"

definition GetIndex :: "Path option \<Rightarrow> 32 word" where
  "GetIndex p = (case p of None \<Rightarrow> 0 | Some q \<Rightarrow> Index q)"

definition GetPathSegments :: "Path option \<Rightarrow> PathSegment option list" where
  "GetPathSegments p = (case p of None \<Rightarrow> [] | Some q \<Rightarrow> PathSegments q)"

text \<open>
  Modelled from the spec: package clienturl is not among the sources. The per-call
  context carries the currently targeted downstream address; an element that changes what
  downstream sees derives a new context. \<open>'u\<close> is the type of the \<^verbatim>\<open>*url.URL\<close>
  references; the code compares them with \<^verbatim>\<open>!=\<close>, which is equality of \<open>'u option\<close>.
\<close>

record 'u Context =
  clientURL :: "'u option"

definition ClientURL :: "'u Context \<Rightarrow> 'u option" where
  "ClientURL ctx = clientURL ctx"

definition WithClientURL :: "'u Context \<Rightarrow> 'u option \<Rightarrow> 'u Context" where
  "WithClientURL parent u = parent\<lparr>clientURL := u\<rparr>"

text \<open>
  \<^verbatim>\<open>connectionInfo\<close> and \<^verbatim>\<open>interposeServer\<close>. The registry \<^verbatim>\<open>endpoints\<close> is a
  list of pairs with distinct keys, in the order in which \<^verbatim>\<open>Range\<close> visits them; the
  table \<^verbatim>\<open>activeConnection\<close> is a map. The table holds pointers to
  \<^verbatim>\<open>connectionInfo\<close> that nothing else keeps, so writing a field through the pointer
  is an update of the map.
\<close>

record 'u connectionInfo =
  endpointURL :: "'u option"
  interposeNSEURL :: "'u option"
  closingNSE :: bool

record 'u interposeServer =
  endpoints :: "(string \<times> NetworkServiceEndpoint) list"
  activeConnection :: "string \<rightharpoonup> 'u connectionInfo"
  name :: string

text \<open>
  \<^verbatim>\<open>sync.Map\<close> of the Go library, for the table: \<^verbatim>\<open>LoadOrStore\<close> keeps the value
  already stored under the key and says whether there was one.
\<close>

definition sync_Load :: "('k \<rightharpoonup> 'v) \<Rightarrow> 'k \<Rightarrow> 'v option \<times> bool" where
  "sync_Load m k = (m k, m k \<noteq> None)"

definition sync_LoadOrStore :: "('k \<rightharpoonup> 'v) \<Rightarrow> 'k \<Rightarrow> 'v \<Rightarrow> ('v \<times> bool) \<times> ('k \<rightharpoonup> 'v)" where
  "sync_LoadOrStore m k v =
     (case m k of Some a \<Rightarrow> ((a, True), m) | None \<Rightarrow> ((v, False), m(k \<mapsto> v)))"

text \<open>
  Modelled from the spec: the registry map (package tools/interpose) is not among the
  sources. It is a typed container with insert-if-absent, delete and iterate operations,
  generated over \<^verbatim>\<open>sync.Map\<close> as \<^verbatim>\<open>FileMap\<close> in the third document of
  \<^verbatim>\<open>src/unnamed/part_000\<close> is. A new key is put at the end of the list; the
  theorems below hold for every order of the entries.
\<close>

definition Map_LoadOrStore ::
  "(string \<times> 'v) list \<Rightarrow> string \<Rightarrow> 'v \<Rightarrow> ('v \<times> bool) \<times> (string \<times> 'v) list" where
  "Map_LoadOrStore m k v =
     (case map_of m k of Some a \<Rightarrow> ((a, True), m) | None \<Rightarrow> ((v, False), m @ [(k, v)]))"

definition Map_Delete :: "(string \<times> 'v) list \<Rightarrow> string \<Rightarrow> (string \<times> 'v) list" where
  "Map_Delete m k = filter (\<lambda>kv. fst kv \<noteq> k) m"

section \<open>The interposition routing element\<close>

text \<open>
  The rest of the chain, \<^verbatim>\<open>next.Server(ctx)\<close>, is a parameter: it maps the context
  and the request to the pair of results that the Go call returns, either of which may be
  \<^verbatim>\<open>nil\<close>. It is taken to leave the request and the tables of the element as they
  are. Every operation returns its result, the element afterwards, and the contexts of
  the delegated calls it made, in order.
\<close>

type_synonym 'u nextRequest =
  "'u Context \<Rightarrow> NetworkServiceRequest option \<Rightarrow> Connection option \<times> error option"

type_synonym 'u nextClose =
  "'u Context \<Rightarrow> Connection option \<Rightarrow> unit option \<times> error option"

subsection \<open>getConnectionID\<close>

text \<open>
  \<^verbatim>\<open>for i := index; i > 0; i-- { if segs[i].Name == l.name { id = segs[i].Id } }\<close>
\<close>

fun scanSegments :: "string \<Rightarrow> PathSegment option list \<Rightarrow> nat \<Rightarrow> string \<Rightarrow> string outcome" where
  "scanSegments nm segs 0 ident = Returned ident"
| "scanSegments nm segs (Suc i) ident =
     (if length segs \<le> Suc i then Panicked IndexOutOfRange
      else case segs ! Suc i of
             None \<Rightarrow> Panicked NilDereference
           | Some s \<Rightarrow> scanSegments nm segs i (if Name s = nm then Id_seg s else ident))"

definition getConnectionID :: "'u interposeServer \<Rightarrow> Connection option \<Rightarrow> string outcome" where
  "getConnectionID l conn =
     scanSegments (name l) (GetPathSegments (GetPath conn))
       (unat (GetIndex (GetPath conn))) []"

subsection \<open>Request\<close>

text \<open>
  The body of the closure given to \<^verbatim>\<open>l.endpoints.Range\<close>, run over the entries in
  order. The closure writes the named results \<^verbatim>\<open>result\<close> and \<^verbatim>\<open>err\<close> and the table.
  \<open>parse\<close> is \<^verbatim>\<open>url.Parse\<close>, whose error the code drops. \<open>conn\<close> is the
  connection of the request, which is not \<^verbatim>\<open>nil\<close> where the loop runs: its path has
  a segment.
\<close>

fun rangeEndpoints ::
  "'u nextRequest \<Rightarrow> (string \<Rightarrow> 'u option) \<Rightarrow> 'u Context \<Rightarrow> NetworkServiceRequest option \<Rightarrow>
   Connection \<Rightarrow> 'u option \<Rightarrow> (string \<times> NetworkServiceEndpoint) list \<Rightarrow>
   (Connection option \<times> error option) \<times> (string \<rightharpoonup> 'u connectionInfo) \<times> 'u Context list \<Rightarrow>
   (Connection option \<times> error option) \<times> (string \<rightharpoonup> 'u connectionInfo) \<times> 'u Context list" where
  "rangeEndpoints nxt parse ctx request conn curl [] acc = acc"
| "rangeEndpoints nxt parse ctx request conn curl (kv # rest) acc =
     (let crossNSEURL = parse (Url (snd kv));
          crossCTX = WithClientURL ctx crossNSEURL;
          act = snd (sync_LoadOrStore (fst (snd acc)) (Id_conn conn)
                  \<lparr>endpointURL = curl, interposeNSEURL = crossNSEURL, closingNSE = False\<rparr>);
          res = nxt crossCTX request;
          calls = snd (snd acc) @ [crossCTX]
      in if snd res \<noteq> None then rangeEndpoints nxt parse ctx request conn curl rest (res, act, calls)
         else (res, act, calls))"

definition Request ::
  "'u nextRequest \<Rightarrow> (string \<Rightarrow> 'u option) \<Rightarrow> 'u Context \<Rightarrow> NetworkServiceRequest option \<Rightarrow>
   'u interposeServer \<Rightarrow>
   ((Connection option \<times> error option) \<times> 'u interposeServer \<times> 'u Context list) outcome" where
  "Request nxt parse ctx request l =
     (let conn = GetConnection request;
          ind = GetIndex (GetPath conn);
          connID = GetId conn
      in if length (GetPathSegments (GetPath conn)) = 0 \<or> ind \<le> 0
         then Returned ((None, Some PathSegmentError), l, [])
         else case getConnectionID l conn of
           Panicked p \<Rightarrow> Panicked p
         | Returned clientConnID \<Rightarrow>
            (let curl = ClientURL ctx in
             case fst (sync_Load (activeConnection l) clientConnID) of
               None \<Rightarrow>
                 if connID \<noteq> clientConnID
                 then Returned ((None, Some ConnectionIdError), l, [])
                 else (case conn of
                         None \<Rightarrow> Panicked NilDereference
                       | Some c \<Rightarrow>
                          (let r = rangeEndpoints nxt parse ctx request c curl (endpoints l)
                                     ((None, None), activeConnection l, [])
                           in if fst (fst r) \<noteq> None
                              then Returned ((fst (fst r), None),
                                     l\<lparr>activeConnection := fst (snd r)\<rparr>, snd (snd r))
                              else Returned ((None, Some AllCrossNSEFailed),
                                     l\<lparr>activeConnection := fst (snd r)\<rparr>, snd (snd r))))
             | Some connInfo \<Rightarrow>
                 if curl \<noteq> endpointURL connInfo
                 then Returned ((None, Some EndpointURLMismatch), l, [])
                 else (let crossCTX = WithClientURL ctx (endpointURL connInfo)
                       in Returned (nxt crossCTX request, l, [crossCTX]))))"

subsection \<open>Close\<close>

definition Close ::
  "'u nextClose \<Rightarrow> 'u Context \<Rightarrow> Connection option \<Rightarrow> 'u interposeServer \<Rightarrow>
   ((unit option \<times> error option) \<times> 'u interposeServer \<times> 'u Context list) outcome" where
  "Close nxt ctx conn l =
     (case getConnectionID l conn of
        Panicked p \<Rightarrow> Panicked p
      | Returned ident \<Rightarrow>
         (case fst (sync_Load (activeConnection l) ident) of
            None \<Rightarrow> Returned ((None, Some NoActiveConnection), l, [])
          | Some connInfo \<Rightarrow>
             if \<not> closingNSE connInfo
             then (let l' = l\<lparr>activeConnection :=
                               (activeConnection l)(ident \<mapsto> connInfo\<lparr>closingNSE := True\<rparr>)\<rparr>;
                       crossCTX = WithClientURL ctx (interposeNSEURL connInfo)
                   in Returned (nxt crossCTX conn, l', [crossCTX]))
             else (let crossCTX = WithClientURL ctx (endpointURL connInfo)
                   in Returned (nxt crossCTX conn, l, [crossCTX]))))"

subsection \<open>The registration surface\<close>

definition LoadOrStore ::
  "string \<Rightarrow> NetworkServiceEndpoint \<Rightarrow> 'u interposeServer \<Rightarrow>
   (NetworkServiceEndpoint option \<times> bool) \<times> 'u interposeServer" where
  "LoadOrStore nm endpoint l =
     (let r = Map_LoadOrStore (endpoints l) nm endpoint
      in if snd (fst r) then ((Some (fst (fst r)), True), l\<lparr>endpoints := snd r\<rparr>)
         else ((None, False), l\<lparr>endpoints := snd r\<rparr>))"

definition Delete :: "string \<Rightarrow> 'u interposeServer \<Rightarrow> 'u interposeServer" where
  "Delete nm l = l\<lparr>endpoints := Map_Delete (endpoints l) nm\<rparr>"

text \<open>
  The context that the closure derives for one registry entry, \<^verbatim>\<open>crossCTX\<close>.
\<close>

definition candidateContext ::
  "(string \<Rightarrow> 'u option) \<Rightarrow> 'u Context \<Rightarrow> string \<times> NetworkServiceEndpoint \<Rightarrow> 'u Context" where
  "candidateContext parse ctx kv = WithClientURL ctx (parse (Url (snd kv)))"

subsection \<open>Sequences of calls\<close>

text \<open>
  The calls that reach the element, and the element after a call. A call that panics
  does so in \<^verbatim>\<open>getConnectionID\<close>, before anything is written.
\<close>

datatype 'u operation =
    DoRequest "'u nextRequest" "string \<Rightarrow> 'u option" "'u Context" "NetworkServiceRequest option"
  | DoClose "'u nextClose" "'u Context" "Connection option"
  | DoLoadOrStore string NetworkServiceEndpoint
  | DoDelete string

fun after :: "'u operation \<Rightarrow> 'u interposeServer \<Rightarrow> 'u interposeServer" where
  "after (DoRequest nxt parse ctx request) l =
     (case Request nxt parse ctx request l of Panicked p \<Rightarrow> l | Returned r \<Rightarrow> fst (snd r))"
| "after (DoClose nxt ctx conn) l =
     (case Close nxt ctx conn l of Panicked p \<Rightarrow> l | Returned r \<Rightarrow> fst (snd r))"
| "after (DoLoadOrStore nm endpoint) l = snd (LoadOrStore nm endpoint l)"
| "after (DoDelete nm) l = Delete nm l"

fun afterAll :: "'u operation list \<Rightarrow> 'u interposeServer \<Rightarrow> 'u interposeServer" where
  "afterAll [] l = l"
| "afterAll (op # ops) l = afterAll ops (after op l)"

section \<open>The endpoint pipeline\<close>

text \<open>
  Modelled from the spec: the chain engine (packages chain and next) is not among the
  sources. An element either delegates to the rest of the chain, with a derived context
  and a function applied to what the rest returns, or terminates with its own result.
  The chain invokes element 0 with the chain of the remaining elements as its next; after
  the last element comes a terminal element. \<open>chain_Request\<close> returns the names of the
  elements entered, in order, and the result.
\<close>

datatype ('c, 'r) action = Delegate 'c "'r \<Rightarrow> 'r" | Terminate 'r

type_synonym ('c, 'r) NetworkServiceServer = "'c \<Rightarrow> ('c, 'r) action"

fun chain_Request ::
  "('k \<times> ('c, 'r) NetworkServiceServer) list \<Rightarrow> ('c \<Rightarrow> 'r) \<Rightarrow> 'c \<Rightarrow> 'k list \<times> 'r" where
  "chain_Request [] terminal c = ([], terminal c)"
| "chain_Request (e # es) terminal c =
     (case snd e c of
        Terminate r \<Rightarrow> ([fst e], r)
      | Delegate c' post \<Rightarrow>
          (fst e # fst (chain_Request es terminal c'), post (snd (chain_Request es terminal c'))))"

definition delegates :: "('c, 'r) NetworkServiceServer \<Rightarrow> bool" where
  "delegates h = (\<forall>c. \<exists>c' post. h c = Delegate c' post)"

text \<open>
  \<^verbatim>\<open>NewServer\<close> of package endpoint (src/pkg/networkservice/chains/endpoint/server.go).
  The constructors of the five fixed elements are parameters; the result is the list
  handed to \<^verbatim>\<open>chain.NewNetworkServiceServer\<close>, each element with the name of its
  position.
\<close>

datatype element = Authorize | SetId | Monitor | Timeout | UpdatePath | Additional nat

definition NewServer ::
  "string \<Rightarrow> 'p \<Rightarrow> 'q \<Rightarrow>
   ('p \<Rightarrow> 'q \<Rightarrow> ('c, 'r) NetworkServiceServer) \<Rightarrow> (string \<Rightarrow> ('c, 'r) NetworkServiceServer) \<Rightarrow>
   ('c, 'r) NetworkServiceServer \<Rightarrow> ('c, 'r) NetworkServiceServer \<Rightarrow>
   (string \<Rightarrow> ('c, 'r) NetworkServiceServer) \<Rightarrow>
   ('c, 'r) NetworkServiceServer list \<Rightarrow> (element \<times> ('c, 'r) NetworkServiceServer) list" where
  "NewServer nm requestPolicy closePolicy authorize_NewServer setid_NewServer monitor_NewServer
     timeout_NewServer updatepath_NewServer additionalFunctionality =
     [(Authorize, authorize_NewServer requestPolicy closePolicy),
      (SetId, setid_NewServer nm),
      (Monitor, monitor_NewServer),
      (Timeout, timeout_NewServer),
      (UpdatePath, updatepath_NewServer nm)]
     @ map (\<lambda>ih. (Additional (fst ih), snd ih)) (enumerate 0 additionalFunctionality)"

section \<open>Concrete inputs\<close>

text \<open>
  A path on which the identity \<open>''interpose''\<close> stands at indices 2 and 4, with current
  index 5.
\<close>

definition example_segments :: "PathSegment option list" where
  "example_segments =
     [Some \<lparr>Name = ''client'', Id_seg = ''id0''\<rparr>,
      Some \<lparr>Name = ''nsmgr-a'', Id_seg = ''id1''\<rparr>,
      Some \<lparr>Name = ''interpose'', Id_seg = ''id2''\<rparr>,
      Some \<lparr>Name = ''forwarder'', Id_seg = ''id3''\<rparr>,
      Some \<lparr>Name = ''interpose'', Id_seg = ''id4''\<rparr>,
      Some \<lparr>Name = ''endpoint'', Id_seg = ''id5''\<rparr>]"

definition example_connection :: "Connection option" where
  "example_connection =
     Some \<lparr>Id_conn = ''id2'', Path = Some \<lparr>Index = 5, PathSegments = example_segments\<rparr>\<rparr>"

text \<open>
  The connection as it arrives from the client, and as it comes back through the
  cross-connect hop.
\<close>

definition first_connection :: Connection where
  "first_connection =
     \<lparr>Id_conn = ''id1'',
      Path = Some \<lparr>Index = 1, PathSegments =
        [Some \<lparr>Name = ''client'', Id_seg = ''id0''\<rparr>,
         Some \<lparr>Name = ''interpose'', Id_seg = ''id1''\<rparr>]\<rparr>\<rparr>"

definition first_request :: "NetworkServiceRequest option" where
  "first_request = Some \<lparr>Connection = Some first_connection\<rparr>"

definition return_connection :: Connection where
  "return_connection =
     \<lparr>Id_conn = ''id3'',
      Path = Some \<lparr>Index = 3, PathSegments =
        [Some \<lparr>Name = ''client'', Id_seg = ''id0''\<rparr>,
         Some \<lparr>Name = ''interpose'', Id_seg = ''id1''\<rparr>,
         Some \<lparr>Name = ''forwarder'', Id_seg = ''id2''\<rparr>,
         Some \<lparr>Name = ''interpose'', Id_seg = ''id3''\<rparr>]\<rparr>\<rparr>"

definition return_request :: "NetworkServiceRequest option" where
  "return_request = Some \<lparr>Connection = Some return_connection\<rparr>"

text \<open>A connection with no segments, and one whose index is past its two segments.\<close>

definition empty_connection :: Connection where
  "empty_connection = \<lparr>Id_conn = ''id1'', Path = Some \<lparr>Index = 0, PathSegments = []\<rparr>\<rparr>"

definition short_connection :: Connection where
  "short_connection =
     \<lparr>Id_conn = ''id1'',
      Path = Some \<lparr>Index = 2, PathSegments =
        [Some \<lparr>Name = ''client'', Id_seg = ''id0''\<rparr>,
         Some \<lparr>Name = ''interpose'', Id_seg = ''id1''\<rparr>]\<rparr>\<rparr>"

text \<open>
  The element with two registered cross-connect endpoints: before any call, with a route
  for \<open>''id1''\<close>, and with that route in its closing phase.
\<close>

definition two_forwarders :: "string interposeServer" where
  "two_forwarders =
     \<lparr>endpoints = [(''fwd-a'', \<lparr>Url = ''unix:///fwd-a''\<rparr>), (''fwd-b'', \<lparr>Url = ''unix:///fwd-b''\<rparr>)],
      activeConnection = Map.empty,
      name = ''interpose''\<rparr>"

definition routed :: "string interposeServer" where
  "routed = two_forwarders\<lparr>activeConnection :=
     [''id1'' \<mapsto> \<lparr>endpointURL = Some ''tcp://endpoint'', interposeNSEURL = Some ''unix:///fwd-a'',
                  closingNSE = False\<rparr>]\<rparr>"

definition closing :: "string interposeServer" where
  "closing = two_forwarders\<lparr>activeConnection :=
     [''id1'' \<mapsto> \<lparr>endpointURL = Some ''tcp://endpoint'', interposeNSEURL = Some ''unix:///fwd-a'',
                  closingNSE = True\<rparr>]\<rparr>"

definition to_endpoint :: "string Context" where
  "to_endpoint = \<lparr>clientURL = Some ''tcp://endpoint''\<rparr>"

definition url_Parse :: "string \<Rightarrow> string option" where
  "url_Parse s = Some s"

text \<open>Three downstream chains for establish, one for close, and a pipeline element.\<close>

definition accept_fwd_b :: "string nextRequest" where
  "accept_fwd_b ctx request =
     (if ClientURL ctx = Some ''unix:///fwd-b'' then (GetConnection request, None)
      else (None, Some (ChainError ''refused'')))"

definition refuse_all :: "string nextRequest" where
  "refuse_all ctx request = (None, Some (ChainError ''refused''))"

definition accept_all :: "string nextRequest" where
  "accept_all ctx request = (GetConnection request, None)"

definition close_ok :: "string nextClose" where
  "close_ok ctx conn = (Some (), None)"

definition pass :: "(nat, nat) NetworkServiceServer" where
  "pass c = Delegate (Suc c) (\<lambda>r. r)"

section \<open>The derived connection id\<close>

lemmas getter_defs = GetConnection_def GetId_def GetPath_def GetIndex_def GetPathSegments_def
  ClientURL_def WithClientURL_def

lemma scanSegments_no_match:
  "\<forall>i. 1 \<le> i \<and> i \<le> n \<longrightarrow> i < length segs \<and> (\<exists>s. segs ! i = Some s \<and> Name s \<noteq> nm)
   \<Longrightarrow> scanSegments nm segs n ident = Returned ident"
proof (induction n arbitrary: ident)
  case 0
  then show ?case by simp
next
  case (Suc n)
  from Suc.prems have here: "Suc n < length segs" "\<exists>s. segs ! Suc n = Some s \<and> Name s \<noteq> nm"
    by auto
  from Suc.prems have below:
    "\<forall>i. 1 \<le> i \<and> i \<le> n \<longrightarrow> i < length segs \<and> (\<exists>s. segs ! i = Some s \<and> Name s \<noteq> nm)"
    by auto
  from here obtain s where s: "segs ! Suc n = Some s" "Name s \<noteq> nm" by blast
  show ?case using here(1) s Suc.IH [OF below] by simp
qed

lemma scanSegments_lowest:
  assumes "\<forall>i. 1 \<le> i \<and> i \<le> n \<longrightarrow> i < length segs \<and> segs ! i \<noteq> None"
      and "1 \<le> k" and "k \<le> n" and "segs ! k = Some s" and "Name s = nm"
      and "\<forall>j t. 1 \<le> j \<and> j < k \<and> segs ! j = Some t \<longrightarrow> Name t \<noteq> nm"
  shows "scanSegments nm segs n ident = Returned (Id_seg s)"
  using assms
proof (induction n arbitrary: ident)
  case 0
  then show ?case by simp
next
  case (Suc n)
  from Suc.prems(1) have inr: "Suc n < length segs" and def: "segs ! Suc n \<noteq> None" by auto
  then obtain t where t: "segs ! Suc n = Some t" by auto
  show ?case
  proof (cases "k = Suc n")
    case True
    have nomatch:
      "\<forall>i. 1 \<le> i \<and> i \<le> n \<longrightarrow> i < length segs \<and> (\<exists>s. segs ! i = Some s \<and> Name s \<noteq> nm)"
    proof (intro allI impI)
      fix i assume i: "1 \<le> i \<and> i \<le> n"
      with Suc.prems(1) have a: "i < length segs" "segs ! i \<noteq> None" by auto
      then obtain r where r: "segs ! i = Some r" by auto
      from i True have "1 \<le> i \<and> i < k \<and> segs ! i = Some r" using r by simp
      with Suc.prems(6) have "Name r \<noteq> nm" by blast
      with a r show "i < length segs \<and> (\<exists>s. segs ! i = Some s \<and> Name s \<noteq> nm)" by simp
    qed
    from True t Suc.prems(4) have "t = s" by simp
    then show ?thesis using inr t Suc.prems(5) scanSegments_no_match [OF nomatch] by simp
  next
    case False
    with Suc.prems(3) have kn: "k \<le> n" by simp
    from Suc.prems(1) have below:
      "\<forall>i. 1 \<le> i \<and> i \<le> n \<longrightarrow> i < length segs \<and> segs ! i \<noteq> None"
      by auto
    show ?thesis
      using inr t Suc.IH [OF below Suc.prems(2) kn Suc.prems(4) Suc.prems(5) Suc.prems(6)]
      by simp
  qed
qed

lemma scanSegments_out_of_range:
  "scanSegments nm segs n ident = Panicked IndexOutOfRange \<longleftrightarrow> 0 < n \<and> length segs \<le> n"
proof (induction n arbitrary: ident)
  case 0
  then show ?case by simp
next
  case (Suc n)
  show ?case
  proof (cases "length segs \<le> Suc n")
    case True
    then show ?thesis by simp
  next
    case False
    then have "\<not> (0 < n \<and> length segs \<le> n)" by simp
    with Suc.IH have "\<And>i. scanSegments nm segs n i \<noteq> Panicked IndexOutOfRange" by simp
    with False show ?thesis by (simp split: option.splits)
  qed
qed

lemma getConnectionID_name:
  "name l' = name l \<Longrightarrow> getConnectionID l' conn = getConnectionID l conn"
  by (simp add: getConnectionID_def)

text \<open>The derived ids of the concrete connections.\<close>

lemma example_index: "unat (GetIndex (GetPath example_connection)) = 5"
  by (simp add: example_connection_def GetIndex_def GetPath_def)

lemma example_path: "GetPathSegments (GetPath example_connection) = example_segments"
  by (simp add: example_connection_def GetPathSegments_def GetPath_def)

lemma example_defined:
  "\<forall>i. 1 \<le> i \<and> i \<le> unat (GetIndex (GetPath example_connection)) \<longrightarrow>
     i < length (GetPathSegments (GetPath example_connection)) \<and>
     GetPathSegments (GetPath example_connection) ! i \<noteq> None"
proof (intro allI impI)
  fix i assume "1 \<le> i \<and> i \<le> unat (GetIndex (GetPath example_connection))"
  then have "i = 1 \<or> i = 2 \<or> i = 3 \<or> i = 4 \<or> i = 5" unfolding example_index by arith
  then show "i < length (GetPathSegments (GetPath example_connection)) \<and>
     GetPathSegments (GetPath example_connection) ! i \<noteq> None"
    unfolding example_path by (auto simp: example_segments_def)
qed

lemma example_lowest:
  "\<forall>j t. 1 \<le> j \<and> j < 2 \<and> GetPathSegments (GetPath example_connection) ! j = Some t
     \<longrightarrow> Name t \<noteq> name two_forwarders"
proof (intro allI impI)
  fix j t
  assume a: "1 \<le> j \<and> j < 2 \<and> GetPathSegments (GetPath example_connection) ! j = Some t"
  then have "j = 1" by arith
  with a show "Name t \<noteq> name two_forwarders"
    unfolding example_path by (auto simp: example_segments_def two_forwarders_def)
qed

lemma first_ident:
  "name l = ''interpose'' \<Longrightarrow> getConnectionID l (Some first_connection) = Returned ''id1''"
  by (simp add: getConnectionID_def first_connection_def getter_defs)

lemma return_index: "unat (GetIndex (GetPath (Some return_connection))) = 3"
  by (simp add: return_connection_def getter_defs)

lemma return_ident:
  "name l = ''interpose'' \<Longrightarrow> getConnectionID l (Some return_connection) = Returned ''id1''"
  unfolding getConnectionID_def return_index
  by (simp add: return_connection_def getter_defs eval_nat_numeral)

text \<open>
  C4. For every connection whose path segments at positions 1 to the current index are
  defined (in range and not nil), the derived connection id is the id of the
  lowest-indexed segment, among the positions from the current index down to 1, whose name
  is the element's own name: if position \<open>k\<close> carries the name and no position from 1
  to \<open>k - 1\<close> does, \<^verbatim>\<open>getConnectionID\<close> returns the id at \<open>k\<close>.
\<close>

theorem getConnectionID_lowest_match:
  assumes "\<forall>i. 1 \<le> i \<and> i \<le> unat (GetIndex (GetPath conn)) \<longrightarrow>
             i < length (GetPathSegments (GetPath conn)) \<and>
             GetPathSegments (GetPath conn) ! i \<noteq> None"
      and "1 \<le> k" and "k \<le> unat (GetIndex (GetPath conn))"
      and "GetPathSegments (GetPath conn) ! k = Some s" and "Name s = name l"
      and "\<forall>j t. 1 \<le> j \<and> j < k \<and> GetPathSegments (GetPath conn) ! j = Some t
             \<longrightarrow> Name t \<noteq> name l"
  shows "getConnectionID l conn = Returned (Id_seg s)"
  unfolding getConnectionID_def
  by (rule scanSegments_lowest [OF assms])

text \<open>
  The identity at indices 2 and 4 with current index 5: the derived id is the id at
  index 2.
\<close>

theorem getConnectionID_lowest_match_witness:
  "length (GetPathSegments (GetPath example_connection)) = 6 \<and>
   unat (GetIndex (GetPath example_connection)) = 5 \<and>
   GetPathSegments (GetPath example_connection) ! 2 = Some \<lparr>Name = ''interpose'', Id_seg = ''id2''\<rparr> \<and>
   GetPathSegments (GetPath example_connection) ! 4 = Some \<lparr>Name = ''interpose'', Id_seg = ''id4''\<rparr> \<and>
   name two_forwarders = ''interpose'' \<and>
   getConnectionID two_forwarders example_connection = Returned ''id2''"
proof -
  have two: "GetPathSegments (GetPath example_connection) ! 2 =
      Some \<lparr>Name = ''interpose'', Id_seg = ''id2''\<rparr>"
    unfolding example_path by (simp add: example_segments_def)
  have four: "GetPathSegments (GetPath example_connection) ! 4 =
      Some \<lparr>Name = ''interpose'', Id_seg = ''id4''\<rparr>"
    unfolding example_path by (simp add: example_segments_def)
  have nm: "name two_forwarders = ''interpose''" by (simp add: two_forwarders_def)
  have "getConnectionID two_forwarders example_connection =
      Returned (Id_seg \<lparr>Name = ''interpose'', Id_seg = ''id2''\<rparr>)"
    by (rule getConnectionID_lowest_match [OF example_defined _ _ two _ example_lowest])
       (simp_all add: example_index nm)
  moreover have "length (GetPathSegments (GetPath example_connection)) = 6"
    unfolding example_path by (simp add: example_segments_def)
  ultimately show ?thesis using example_index two four nm by simp
qed

section \<open>Request\<close>

subsection \<open>The loop over the registry\<close>

lemma sync_LoadOrStore_present:
  "m k \<noteq> None \<Longrightarrow> snd (sync_LoadOrStore m k v) = m"
  by (auto simp: sync_LoadOrStore_def)

lemma sync_LoadOrStore_absent:
  "m k = None \<Longrightarrow> snd (sync_LoadOrStore m k v) = m(k \<mapsto> v)"
  by (simp add: sync_LoadOrStore_def)

lemma rangeEndpoints_table_kept:
  "act (Id_conn conn) \<noteq> None \<Longrightarrow>
   fst (snd (rangeEndpoints nxt parse ctx request conn curl eps (res, act, calls))) = act"
proof (induction eps arbitrary: res calls)
  case Nil
  then show ?case by simp
next
  case (Cons kv eps)
  then show ?case by (simp add: Let_def sync_LoadOrStore_present)
qed

text \<open>Only the first entry visited writes the table: the later stores find its entry.\<close>

lemma rangeEndpoints_table:
  "fst (snd (rangeEndpoints nxt parse ctx request conn curl eps (res, act, calls))) =
     (case eps of [] \<Rightarrow> act
      | kv # rest \<Rightarrow> snd (sync_LoadOrStore act (Id_conn conn)
          \<lparr>endpointURL = curl, interposeNSEURL = parse (Url (snd kv)), closingNSE = False\<rparr>))"
proof (cases eps)
  case Nil
  then show ?thesis by simp
next
  case (Cons kv rest)
  let ?info = "\<lparr>endpointURL = curl, interposeNSEURL = parse (Url (snd kv)), closingNSE = False\<rparr>"
  have "snd (sync_LoadOrStore act (Id_conn conn) ?info) (Id_conn conn) \<noteq> None"
    by (auto simp: sync_LoadOrStore_def split: option.splits)
  then show ?thesis using Cons
    by (simp add: Let_def rangeEndpoints_table_kept)
qed

lemma rangeEndpoints_entry_kept:
  assumes "act k = Some info"
  shows "fst (snd (rangeEndpoints nxt parse ctx request conn curl eps (res, act, calls))) k = Some info"
proof (cases "k = Id_conn conn")
  case True
  with assms have "act (Id_conn conn) \<noteq> None" by simp
  from rangeEndpoints_table_kept [where act = act and conn = conn, OF this] assms
  show ?thesis by simp
next
  case False
  have "fst (snd (rangeEndpoints nxt parse ctx request conn curl eps (res, act, calls))) k = act k"
    using False rangeEndpoints_table [of nxt parse ctx request conn curl eps res act calls]
    by (cases eps) (auto simp: sync_LoadOrStore_def split: option.splits)
  with assms show ?thesis by simp
qed

lemma rangeEndpoints_all_fail:
  assumes "\<forall>kv\<in>set eps. fst (nxt (candidateContext parse ctx kv) request) = None \<and>
             snd (nxt (candidateContext parse ctx kv) request) \<noteq> None"
      and "fst res = None"
  shows "fst (fst (rangeEndpoints nxt parse ctx request conn curl eps (res, act, calls))) = None \<and>
         snd (snd (rangeEndpoints nxt parse ctx request conn curl eps (res, act, calls))) =
           calls @ map (candidateContext parse ctx) eps"
  using assms
proof (induction eps arbitrary: res act calls)
  case Nil
  then show ?case by simp
next
  case (Cons kv eps)
  from Cons.prems(1) have here: "fst (nxt (candidateContext parse ctx kv) request) = None"
      "snd (nxt (candidateContext parse ctx kv) request) \<noteq> None"
    and rest: "\<forall>kv\<in>set eps. fst (nxt (candidateContext parse ctx kv) request) = None \<and>
             snd (nxt (candidateContext parse ctx kv) request) \<noteq> None"
    by simp_all
  show ?case using here Cons.IH [OF rest here(1)]
    by (simp add: Let_def candidateContext_def)
qed

text \<open>
  The entries are tried one after the other; an error sends the loop to the next entry,
  and the first call without an error ends it.
\<close>

lemma rangeEndpoints_first_success:
  assumes "\<forall>kv\<in>set pre. snd (nxt (candidateContext parse ctx kv) request) \<noteq> None"
      and "snd (nxt (candidateContext parse ctx kv0) request) = None"
  shows "fst (rangeEndpoints nxt parse ctx request conn curl (pre @ kv0 # post) (res, act, calls)) =
           nxt (candidateContext parse ctx kv0) request \<and>
         snd (snd (rangeEndpoints nxt parse ctx request conn curl (pre @ kv0 # post) (res, act, calls))) =
           calls @ map (candidateContext parse ctx) (pre @ [kv0])"
  using assms
proof (induction pre arbitrary: res act calls)
  case Nil
  then show ?case by (simp add: Let_def candidateContext_def)
next
  case (Cons kv pre)
  from Cons.prems(1) have here: "snd (nxt (candidateContext parse ctx kv) request) \<noteq> None"
    and rest: "\<forall>kv\<in>set pre. snd (nxt (candidateContext parse ctx kv) request) \<noteq> None"
    by simp_all
  show ?case using here Cons.IH [OF rest Cons.prems(2)]
    by (simp add: Let_def candidateContext_def)
qed

subsection \<open>The branches of Request\<close>

lemma Request_malformed:
  "length (GetPathSegments (GetPath (GetConnection request))) = 0 \<or>
   GetIndex (GetPath (GetConnection request)) \<le> 0
   \<Longrightarrow> Request nxt parse ctx request l = Returned ((None, Some PathSegmentError), l, [])"
  by (simp add: Request_def Let_def)

lemma Request_existing:
  assumes "length (GetPathSegments (GetPath (GetConnection request))) \<noteq> 0"
      and "GetIndex (GetPath (GetConnection request)) \<noteq> 0"
      and "getConnectionID l (GetConnection request) = Returned ident"
      and "activeConnection l ident = Some connInfo"
  shows "Request nxt parse ctx request l =
           (if ClientURL ctx \<noteq> endpointURL connInfo
            then Returned ((None, Some EndpointURLMismatch), l, [])
            else Returned (nxt (WithClientURL ctx (endpointURL connInfo)) request, l,
                   [WithClientURL ctx (endpointURL connInfo)]))"
  using assms by (simp add: Request_def Let_def sync_Load_def)

lemma nonempty_segments_conn:
  "length (GetPathSegments (GetPath conn)) \<noteq> 0 \<Longrightarrow> \<exists>c. conn = Some c"
  by (cases conn) (simp_all add: GetPath_def GetPathSegments_def)

lemma Request_first:
  assumes "length (GetPathSegments (GetPath (GetConnection request))) \<noteq> 0"
      and "GetIndex (GetPath (GetConnection request)) \<noteq> 0"
      and "getConnectionID l (GetConnection request) = Returned ident"
      and "activeConnection l ident = None"
      and "GetConnection request = Some c"
      and "Id_conn c = ident"
  shows "Request nxt parse ctx request l =
           (let r = rangeEndpoints nxt parse ctx request c (ClientURL ctx) (endpoints l)
                      ((None, None), activeConnection l, [])
            in if fst (fst r) \<noteq> None
               then Returned ((fst (fst r), None), l\<lparr>activeConnection := fst (snd r)\<rparr>, snd (snd r))
               else Returned ((None, Some AllCrossNSEFailed), l\<lparr>activeConnection := fst (snd r)\<rparr>,
                      snd (snd r)))"
  using assms by (simp add: Request_def Let_def sync_Load_def GetId_def)

lemma Request_id_mismatch:
  assumes "length (GetPathSegments (GetPath (GetConnection request))) \<noteq> 0"
      and "GetIndex (GetPath (GetConnection request)) \<noteq> 0"
      and "getConnectionID l (GetConnection request) = Returned ident"
      and "activeConnection l ident = None"
      and "GetId (GetConnection request) \<noteq> ident"
  shows "Request nxt parse ctx request l = Returned ((None, Some ConnectionIdError), l, [])"
  using assms by (simp add: Request_def Let_def sync_Load_def)

lemma Request_success_wellformed:
  assumes "Request nxt parse ctx request l = Returned ((Some c, e), l', calls)"
  shows "length (GetPathSegments (GetPath (GetConnection request))) \<noteq> 0 \<and>
         GetIndex (GetPath (GetConnection request)) \<noteq> 0"
proof (rule ccontr)
  assume "\<not> ?thesis"
  then have "length (GetPathSegments (GetPath (GetConnection request))) = 0 \<or>
             GetIndex (GetPath (GetConnection request)) \<le> 0" by auto
  from Request_malformed [where nxt = nxt and parse = parse and ctx = ctx and l = l, OF this] assms
  show False by simp
qed

text \<open>A first establish that returns a connection leaves an entry with the caller's address.\<close>

lemma Request_first_success_entry:
  assumes first: "Request nxt parse ctx request l = Returned ((Some c, e), l', calls)"
      and ident: "getConnectionID l (GetConnection request) = Returned ident"
      and absent: "activeConnection l ident = None"
  shows "\<exists>x. activeConnection l' ident =
               Some \<lparr>endpointURL = ClientURL ctx, interposeNSEURL = x, closingNSE = False\<rparr>"
proof -
  from Request_success_wellformed [OF first]
  have wf: "length (GetPathSegments (GetPath (GetConnection request))) \<noteq> 0"
           "GetIndex (GetPath (GetConnection request)) \<noteq> 0" by simp_all
  have same: "GetId (GetConnection request) = ident"
  proof (rule ccontr)
    assume "GetId (GetConnection request) \<noteq> ident"
    from Request_id_mismatch [OF wf ident absent this] first show False by simp
  qed
  from nonempty_segments_conn [OF wf(1)] obtain c0 where c0: "GetConnection request = Some c0"
    by blast
  with same have idc: "Id_conn c0 = ident" by (simp add: GetId_def)
  let ?r = "rangeEndpoints nxt parse ctx request c0 (ClientURL ctx) (endpoints l)
              ((None, None), activeConnection l, [])"
  from Request_first [OF wf ident absent c0 idc, of nxt parse ctx] first
  have res: "fst (fst ?r) \<noteq> None" and l': "l' = l\<lparr>activeConnection := fst (snd ?r)\<rparr>"
    by (auto simp: Let_def split: if_splits)
  from res obtain kv rest where eps: "endpoints l = kv # rest"
    by (cases "endpoints l") auto
  have "fst (snd ?r) = (activeConnection l)(ident \<mapsto>
          \<lparr>endpointURL = ClientURL ctx, interposeNSEURL = parse (Url (snd kv)), closingNSE = False\<rparr>)"
    using absent idc rangeEndpoints_table [of nxt parse ctx request c0 "ClientURL ctx" "endpoints l"
        "(None, None)" "activeConnection l" "[]"]
    by (simp only: eps list.case sync_LoadOrStore_absent)
  with l' show ?thesis by simp
qed

subsection \<open>Concrete runs\<close>

lemma first_run:
  "Request accept_fwd_b url_Parse to_endpoint first_request two_forwarders =
     Returned ((Some first_connection, None), routed,
               [\<lparr>clientURL = Some ''unix:///fwd-a''\<rparr>, \<lparr>clientURL = Some ''unix:///fwd-b''\<rparr>])"
  by (simp add: Request_def Let_def first_ident sync_Load_def sync_LoadOrStore_def getter_defs
        two_forwarders_def routed_def first_request_def to_endpoint_def url_Parse_def accept_fwd_b_def,
      simp add: first_connection_def)

lemma refused_run:
  "Request refuse_all url_Parse to_endpoint first_request two_forwarders =
     Returned ((None, Some AllCrossNSEFailed), routed,
               [\<lparr>clientURL = Some ''unix:///fwd-a''\<rparr>, \<lparr>clientURL = Some ''unix:///fwd-b''\<rparr>])"
  by (simp add: Request_def Let_def first_ident sync_Load_def sync_LoadOrStore_def getter_defs
        two_forwarders_def routed_def first_request_def to_endpoint_def url_Parse_def refuse_all_def,
      simp add: first_connection_def)

lemma return_run:
  "Request accept_all url_Parse to_endpoint return_request routed =
     Returned ((Some return_connection, None), routed, [\<lparr>clientURL = Some ''tcp://endpoint''\<rparr>])"
  by (simp add: Request_def Let_def return_ident sync_Load_def getter_defs
        two_forwarders_def routed_def return_request_def to_endpoint_def accept_all_def,
      simp add: return_connection_def)

lemma repeat_run:
  "Request accept_fwd_b url_Parse to_endpoint first_request routed =
     Returned ((None, Some (ChainError ''refused'')), routed, [\<lparr>clientURL = Some ''tcp://endpoint''\<rparr>])"
  by (simp add: Request_def Let_def first_ident sync_Load_def getter_defs
        two_forwarders_def routed_def first_request_def to_endpoint_def accept_fwd_b_def,
      simp add: first_connection_def)

lemma routed_entry:
  "activeConnection routed ''id1'' =
     Some \<lparr>endpointURL = Some ''tcp://endpoint'', interposeNSEURL = Some ''unix:///fwd-a'',
           closingNSE = False\<rparr>"
  by (simp add: routed_def)

lemma first_wellformed:
  "length (GetPathSegments (GetPath (GetConnection first_request))) \<noteq> 0"
  "GetIndex (GetPath (GetConnection first_request)) \<noteq> 0"
  "GetConnection first_request = Some first_connection"
  "GetId (GetConnection first_request) = ''id1''"
  by (simp_all add: first_request_def first_connection_def getter_defs)

lemma return_wellformed:
  "length (GetPathSegments (GetPath (GetConnection return_request))) \<noteq> 0"
  "GetIndex (GetPath (GetConnection return_request)) \<noteq> 0"
  "GetConnection return_request = Some return_connection"
  by (simp_all add: return_request_def return_connection_def getter_defs)

lemma example_names:
  "name two_forwarders = ''interpose''" "name routed = ''interpose''" "name closing = ''interpose''"
  by (simp_all add: two_forwarders_def routed_def closing_def)

subsection \<open>Malformed paths\<close>

text \<open>
  C7. An establish request whose path has no segments, or whose current index is at most
  0, returns the malformed-input error at once: no call is delegated to the rest of the
  chain, and the element (the registry and the active-route table) is as it was.
\<close>

theorem Request_rejects_malformed_path:
  assumes "length (GetPathSegments (GetPath (GetConnection request))) = 0 \<or>
           GetIndex (GetPath (GetConnection request)) \<le> 0"
  shows "Request nxt parse ctx request l = Returned ((None, Some PathSegmentError), l, [])"
  using assms by (rule Request_malformed)

theorem Request_rejects_malformed_path_witness:
  "length (GetPathSegments (GetPath (GetConnection (Some \<lparr>Connection = Some empty_connection\<rparr>)))) = 0 \<and>
   Request accept_all url_Parse to_endpoint (Some \<lparr>Connection = Some empty_connection\<rparr>) routed =
     Returned ((None, Some PathSegmentError), routed, [])"
proof -
  have h: "length (GetPathSegments (GetPath (GetConnection
      (Some \<lparr>Connection = Some empty_connection\<rparr>)))) = 0"
    by (simp add: empty_connection_def getter_defs)
  then have "length (GetPathSegments (GetPath (GetConnection
      (Some \<lparr>Connection = Some empty_connection\<rparr>)))) = 0 \<or>
    GetIndex (GetPath (GetConnection (Some \<lparr>Connection = Some empty_connection\<rparr>))) \<le> 0"
    by simp
  from Request_rejects_malformed_path [OF this, of accept_all url_Parse to_endpoint routed] h
  show ?thesis by simp
qed

subsection \<open>Repeat establishes\<close>

text \<open>
  C1, as the code has it. For every connection id that already has an Active Route Entry,
  an establish call whose caller-supplied upstream address equals the recorded one makes
  one delegated call, with the context retargeted at the entry's recorded upstream
  (endpoint) address, and returns the result of that call as it is; the registry is not
  iterated and the element is unchanged.
\<close>

theorem Request_repeat_targets_upstream:
  assumes "length (GetPathSegments (GetPath (GetConnection request))) \<noteq> 0"
      and "GetIndex (GetPath (GetConnection request)) \<noteq> 0"
      and "getConnectionID l (GetConnection request) = Returned ident"
      and "activeConnection l ident = Some connInfo"
      and "ClientURL ctx = endpointURL connInfo"
  shows "Request nxt parse ctx request l =
           Returned (nxt (WithClientURL ctx (endpointURL connInfo)) request, l,
                     [WithClientURL ctx (endpointURL connInfo)])"
  using Request_existing [OF assms(1) assms(2) assms(3) assms(4), of nxt parse ctx] assms(5)
  by simp

theorem Request_repeat_targets_upstream_witness:
  "ClientURL to_endpoint = Some ''tcp://endpoint'' \<and>
   getConnectionID routed (GetConnection first_request) = Returned ''id1'' \<and>
   Request accept_all url_Parse to_endpoint first_request routed =
     Returned ((Some first_connection, None), routed, [\<lparr>clientURL = Some ''tcp://endpoint''\<rparr>])"
proof -
  have ident: "getConnectionID routed (GetConnection first_request) = Returned ''id1''"
    by (simp add: first_wellformed first_ident example_names)
  have curl: "ClientURL to_endpoint = endpointURL
      \<lparr>endpointURL = Some ''tcp://endpoint'', interposeNSEURL = Some ''unix:///fwd-a'',
       closingNSE = False\<rparr>"
    by (simp add: to_endpoint_def ClientURL_def)
  from Request_repeat_targets_upstream [OF first_wellformed(1) first_wellformed(2) ident
      routed_entry curl, of accept_all url_Parse]
  have "Request accept_all url_Parse to_endpoint first_request routed =
     Returned ((Some first_connection, None), routed, [\<lparr>clientURL = Some ''tcp://endpoint''\<rparr>])"
    by (simp add: accept_all_def first_wellformed to_endpoint_def WithClientURL_def)
  with ident curl show ?thesis by simp
qed

text \<open>
  C1, as it is stated, fails: the entry for \<open>''id1''\<close> records the cross-connect address
  \<open>''unix:///fwd-a''\<close>, and the repeat establish coming back through the cross-connect
  hop is delegated with the context targeted at the upstream address
  \<open>''tcp://endpoint''\<close>.
\<close>

theorem Request_repeat_counterexample:
  "activeConnection routed ''id1'' =
     Some \<lparr>endpointURL = Some ''tcp://endpoint'', interposeNSEURL = Some ''unix:///fwd-a'',
           closingNSE = False\<rparr> \<and>
   getConnectionID routed (GetConnection return_request) = Returned ''id1'' \<and>
   ClientURL to_endpoint = Some ''tcp://endpoint'' \<and>
   Request accept_all url_Parse to_endpoint return_request routed =
     Returned ((Some return_connection, None), routed, [\<lparr>clientURL = Some ''tcp://endpoint''\<rparr>]) \<and>
   Request accept_all url_Parse to_endpoint return_request routed \<noteq>
     Returned (accept_all (WithClientURL to_endpoint (Some ''unix:///fwd-a'')) return_request,
               routed, [WithClientURL to_endpoint (Some ''unix:///fwd-a'')])"
proof -
  have ident: "getConnectionID routed (GetConnection return_request) = Returned ''id1''"
    by (simp add: return_wellformed return_ident example_names)
  have curl: "ClientURL to_endpoint = Some ''tcp://endpoint''"
    by (simp add: to_endpoint_def ClientURL_def)
  have differ: "[\<lparr>clientURL = Some ''tcp://endpoint''\<rparr>] \<noteq>
      [WithClientURL to_endpoint (Some ''unix:///fwd-a'')]"
    by (simp add: to_endpoint_def WithClientURL_def)
  from return_run differ
  have "Request accept_all url_Parse to_endpoint return_request routed \<noteq>
     Returned (accept_all (WithClientURL to_endpoint (Some ''unix:///fwd-a'')) return_request,
               routed, [WithClientURL to_endpoint (Some ''unix:///fwd-a'')])"
    by simp
  with routed_entry ident curl return_run show ?thesis by simp
qed

text \<open>
  C6. After a successful first establish, made with upstream address \<open>ClientURL ctx\<close>, a
  repeat establish for the same connection id fails with the consistency-violation error,
  without a delegated call, if and only if its upstream address differs from the recorded
  one; with the same address it passes the check and is delegated.
\<close>

theorem Request_sticky_address:
  assumes "Request nxt parse ctx request l = Returned ((Some c, None), l', calls)"
      and "getConnectionID l (GetConnection request) = Returned ident"
      and "activeConnection l ident = None"
      and "length (GetPathSegments (GetPath (GetConnection request'))) \<noteq> 0"
      and "GetIndex (GetPath (GetConnection request')) \<noteq> 0"
      and "getConnectionID l' (GetConnection request') = Returned ident"
  shows "(Request nxt' parse' ctx' request' l' = Returned ((None, Some EndpointURLMismatch), l', [])
            \<longleftrightarrow> ClientURL ctx' \<noteq> ClientURL ctx) \<and>
         (ClientURL ctx' = ClientURL ctx \<longrightarrow>
            Request nxt' parse' ctx' request' l' =
              Returned (nxt' (WithClientURL ctx' (ClientURL ctx)) request', l',
                        [WithClientURL ctx' (ClientURL ctx)]))"
proof -
  from Request_first_success_entry [OF assms(1) assms(2) assms(3)]
  obtain x where entry: "activeConnection l' ident =
      Some \<lparr>endpointURL = ClientURL ctx, interposeNSEURL = x, closingNSE = False\<rparr>" by blast
  from Request_existing [OF assms(4) assms(5) assms(6) entry, of nxt' parse' ctx']
  show ?thesis by simp
qed

theorem Request_sticky_address_witness:
  "Request accept_fwd_b url_Parse to_endpoint first_request two_forwarders =
     Returned ((Some first_connection, None), routed,
               [\<lparr>clientURL = Some ''unix:///fwd-a''\<rparr>, \<lparr>clientURL = Some ''unix:///fwd-b''\<rparr>]) \<and>
   activeConnection two_forwarders ''id1'' = None \<and>
   Request accept_all url_Parse \<lparr>clientURL = Some ''tcp://other''\<rparr> return_request routed =
     Returned ((None, Some EndpointURLMismatch), routed, []) \<and>
   Request accept_all url_Parse to_endpoint return_request routed =
     Returned ((Some return_connection, None), routed, [\<lparr>clientURL = Some ''tcp://endpoint''\<rparr>])"
proof -
  have ident: "getConnectionID two_forwarders (GetConnection first_request) = Returned ''id1''"
    by (simp add: first_wellformed first_ident example_names)
  have absent: "activeConnection two_forwarders ''id1'' = None"
    by (simp add: two_forwarders_def)
  have ident': "getConnectionID routed (GetConnection return_request) = Returned ''id1''"
    by (simp add: return_wellformed return_ident example_names)
  note sticky = Request_sticky_address [OF first_run ident absent return_wellformed(1)
      return_wellformed(2) ident', of accept_all url_Parse]
  from sticky [of "\<lparr>clientURL = Some ''tcp://other''\<rparr>"]
  have other: "Request accept_all url_Parse \<lparr>clientURL = Some ''tcp://other''\<rparr> return_request routed =
     Returned ((None, Some EndpointURLMismatch), routed, [])"
    by (simp add: ClientURL_def to_endpoint_def)
  from sticky [of to_endpoint]
  have same: "Request accept_all url_Parse to_endpoint return_request routed =
     Returned ((Some return_connection, None), routed, [\<lparr>clientURL = Some ''tcp://endpoint''\<rparr>])"
    by (simp add: ClientURL_def WithClientURL_def to_endpoint_def accept_all_def return_wellformed)
  from first_run absent other same show ?thesis by simp
qed

subsection \<open>First establishes\<close>

text \<open>
  C2, at a concrete input. The registry holds \<open>fwd-a\<close> and \<open>fwd-b\<close>, in the order of
  the visit; the call delegated for \<open>fwd-a\<close> fails and the call for \<open>fwd-b\<close> succeeds.
  Request tries \<open>fwd-a\<close>, then \<open>fwd-b\<close>, and returns the connection, but the entry left
  for the connection id records \<open>''unix:///fwd-a''\<close>, the address of the entry that
  failed: the store for \<open>fwd-b\<close> is an insert-if-absent that finds the entry reserved for
  \<open>fwd-a\<close>. The first Close is then sent to \<open>fwd-a\<close>.
\<close>

theorem Request_records_first_candidate:
  "accept_fwd_b \<lparr>clientURL = Some ''unix:///fwd-a''\<rparr> first_request =
     (None, Some (ChainError ''refused'')) \<and>
   accept_fwd_b \<lparr>clientURL = Some ''unix:///fwd-b''\<rparr> first_request =
     (Some first_connection, None) \<and>
   activeConnection two_forwarders ''id1'' = None \<and>
   Request accept_fwd_b url_Parse to_endpoint first_request two_forwarders =
     Returned ((Some first_connection, None), routed,
               [\<lparr>clientURL = Some ''unix:///fwd-a''\<rparr>, \<lparr>clientURL = Some ''unix:///fwd-b''\<rparr>]) \<and>
   activeConnection routed ''id1'' =
     Some \<lparr>endpointURL = Some ''tcp://endpoint'', interposeNSEURL = Some ''unix:///fwd-a'',
           closingNSE = False\<rparr> \<and>
   Close close_ok to_endpoint (Some first_connection) routed =
     Returned ((Some (), None), closing, [\<lparr>clientURL = Some ''unix:///fwd-a''\<rparr>])"
proof -
  have a: "accept_fwd_b \<lparr>clientURL = Some ''unix:///fwd-a''\<rparr> first_request =
     (None, Some (ChainError ''refused''))"
    by (simp add: accept_fwd_b_def ClientURL_def)
  have b: "accept_fwd_b \<lparr>clientURL = Some ''unix:///fwd-b''\<rparr> first_request =
     (Some first_connection, None)"
    by (simp add: accept_fwd_b_def ClientURL_def first_wellformed)
  have absent: "activeConnection two_forwarders ''id1'' = None"
    by (simp add: two_forwarders_def)
  have cl: "Close close_ok to_endpoint (Some first_connection) routed =
     Returned ((Some (), None), closing, [\<lparr>clientURL = Some ''unix:///fwd-a''\<rparr>])"
    by (simp add: Close_def Let_def first_ident example_names sync_Load_def routed_entry
          close_ok_def WithClientURL_def to_endpoint_def)
       (simp add: routed_def closing_def)
  from a b absent first_run routed_entry cl show ?thesis by simp
qed

text \<open>
  C3, as the code has it. For every first establish in which every registered
  cross-connect candidate's delegated call fails (an error and no connection), or the
  registry is empty, Request returns the no-route-available error after one delegated
  call for each candidate. With an empty registry the element is unchanged. With a
  registry that is not empty the entry reserved for the connection id stays in the table,
  with the caller's upstream address, and a later establish for the same id is handled as
  a repeat: it is checked against that address and delegated without iterating the
  registry.
\<close>

theorem Request_exhausted:
  assumes "length (GetPathSegments (GetPath (GetConnection request))) \<noteq> 0"
      and "GetIndex (GetPath (GetConnection request)) \<noteq> 0"
      and "getConnectionID l (GetConnection request) = Returned ident"
      and "activeConnection l ident = None"
      and "GetId (GetConnection request) = ident"
      and "\<forall>kv\<in>set (endpoints l).
             fst (nxt (candidateContext parse ctx kv) request) = None \<and>
             snd (nxt (candidateContext parse ctx kv) request) \<noteq> None"
      and "length (GetPathSegments (GetPath (GetConnection request'))) \<noteq> 0"
      and "GetIndex (GetPath (GetConnection request')) \<noteq> 0"
      and "getConnectionID l (GetConnection request') = Returned ident"
  shows "\<exists>l'. Request nxt parse ctx request l =
                 Returned ((None, Some AllCrossNSEFailed), l',
                           map (candidateContext parse ctx) (endpoints l)) \<and>
              (endpoints l = [] \<longrightarrow> l' = l) \<and>
              (endpoints l \<noteq> [] \<longrightarrow>
                 (\<exists>x. activeConnection l' ident =
                    Some \<lparr>endpointURL = ClientURL ctx, interposeNSEURL = x, closingNSE = False\<rparr>) \<and>
                 Request nxt' parse' ctx' request' l' =
                   (if ClientURL ctx' \<noteq> ClientURL ctx
                    then Returned ((None, Some EndpointURLMismatch), l', [])
                    else Returned (nxt' (WithClientURL ctx' (ClientURL ctx)) request', l',
                           [WithClientURL ctx' (ClientURL ctx)])))"
proof -
  from nonempty_segments_conn [OF assms(1)] obtain c0 where c0: "GetConnection request = Some c0"
    by blast
  with assms(5) have idc: "Id_conn c0 = ident" by (simp add: GetId_def)
  let ?r = "rangeEndpoints nxt parse ctx request c0 (ClientURL ctx) (endpoints l)
              ((None, None), activeConnection l, [])"
  let ?l' = "l\<lparr>activeConnection := fst (snd ?r)\<rparr>"
  from rangeEndpoints_all_fail [where nxt = nxt and parse = parse and ctx = ctx
      and request = request and eps = "endpoints l" and res = "(None, None)" and conn = c0
      and curl = "ClientURL ctx" and act = "activeConnection l" and calls = "[]"] assms(6)
  have res: "fst (fst ?r) = None"
    and calls: "snd (snd ?r) = map (candidateContext parse ctx) (endpoints l)" by simp_all
  from Request_first [OF assms(1) assms(2) assms(3) assms(4) c0 idc, of nxt parse ctx] res calls
  have req: "Request nxt parse ctx request l =
     Returned ((None, Some AllCrossNSEFailed), ?l', map (candidateContext parse ctx) (endpoints l))"
    by (simp add: Let_def)
  have empty: "endpoints l = [] \<longrightarrow> ?l' = l" by simp
  have kept: "endpoints l \<noteq> [] \<longrightarrow>
     (\<exists>x. activeConnection ?l' ident =
          Some \<lparr>endpointURL = ClientURL ctx, interposeNSEURL = x, closingNSE = False\<rparr>) \<and>
     Request nxt' parse' ctx' request' ?l' =
       (if ClientURL ctx' \<noteq> ClientURL ctx
        then Returned ((None, Some EndpointURLMismatch), ?l', [])
        else Returned (nxt' (WithClientURL ctx' (ClientURL ctx)) request', ?l',
               [WithClientURL ctx' (ClientURL ctx)]))"
  proof
    assume "endpoints l \<noteq> []"
    then obtain kv rest where eps: "endpoints l = kv # rest" by (cases "endpoints l") auto
    let ?info = "\<lparr>endpointURL = ClientURL ctx, interposeNSEURL = parse (Url (snd kv)),
                  closingNSE = False\<rparr>"
    have "fst (snd ?r) = (activeConnection l)(ident \<mapsto> ?info)"
      using assms(4) idc rangeEndpoints_table [of nxt parse ctx request c0 "ClientURL ctx" "endpoints l"
          "(None, None)" "activeConnection l" "[]"]
      by (simp only: eps list.case sync_LoadOrStore_absent)
    then have entry: "activeConnection ?l' ident = Some ?info" by simp
    have "getConnectionID ?l' (GetConnection request') = Returned ident"
      using assms(9) by (simp add: getConnectionID_def)
    from Request_existing [OF assms(7) assms(8) this entry, of nxt' parse' ctx'] entry
    show "(\<exists>x. activeConnection ?l' ident =
          Some \<lparr>endpointURL = ClientURL ctx, interposeNSEURL = x, closingNSE = False\<rparr>) \<and>
     Request nxt' parse' ctx' request' ?l' =
       (if ClientURL ctx' \<noteq> ClientURL ctx
        then Returned ((None, Some EndpointURLMismatch), ?l', [])
        else Returned (nxt' (WithClientURL ctx' (ClientURL ctx)) request', ?l',
               [WithClientURL ctx' (ClientURL ctx)]))"
      by simp
  qed
  from req empty kept show ?thesis by blast
qed

theorem Request_exhausted_witness:
  "endpoints two_forwarders \<noteq> [] \<and>
   refuse_all (candidateContext url_Parse to_endpoint (''fwd-a'', \<lparr>Url = ''unix:///fwd-a''\<rparr>))
     first_request = (None, Some (ChainError ''refused'')) \<and>
   Request refuse_all url_Parse to_endpoint first_request two_forwarders =
     Returned ((None, Some AllCrossNSEFailed), routed,
               [\<lparr>clientURL = Some ''unix:///fwd-a''\<rparr>, \<lparr>clientURL = Some ''unix:///fwd-b''\<rparr>]) \<and>
   Request accept_all url_Parse to_endpoint return_request routed =
     Returned ((Some return_connection, None), routed, [\<lparr>clientURL = Some ''tcp://endpoint''\<rparr>]) \<and>
   Request refuse_all url_Parse to_endpoint first_request (two_forwarders\<lparr>endpoints := []\<rparr>) =
     Returned ((None, Some AllCrossNSEFailed), two_forwarders\<lparr>endpoints := []\<rparr>, [])"
proof -
  have ident: "getConnectionID two_forwarders (GetConnection first_request) = Returned ''id1''"
    by (simp add: first_wellformed first_ident example_names)
  have absent: "activeConnection two_forwarders ''id1'' = None"
    by (simp add: two_forwarders_def)
  have fails: "\<forall>kv\<in>set (endpoints two_forwarders).
      fst (refuse_all (candidateContext url_Parse to_endpoint kv) first_request) = None \<and>
      snd (refuse_all (candidateContext url_Parse to_endpoint kv) first_request) \<noteq> None"
    by (simp add: refuse_all_def)
  have ident': "getConnectionID two_forwarders (GetConnection return_request) = Returned ''id1''"
    by (simp add: return_wellformed return_ident example_names)
  have nonempty: "endpoints two_forwarders \<noteq> []" by (simp add: two_forwarders_def)
  from Request_exhausted [where nxt = refuse_all and parse = url_Parse and ctx = to_endpoint
      and request = first_request and l = two_forwarders and ident = "''id1''"
      and request' = return_request and nxt' = accept_all and parse' = url_Parse
      and ctx' = to_endpoint,
      OF first_wellformed(1) first_wellformed(2) ident absent
      first_wellformed(4) fails return_wellformed(1) return_wellformed(2) ident']
  obtain l' where run: "Request refuse_all url_Parse to_endpoint first_request two_forwarders =
        Returned ((None, Some AllCrossNSEFailed), l',
                  map (candidateContext url_Parse to_endpoint) (endpoints two_forwarders))"
    and later: "Request accept_all url_Parse to_endpoint return_request l' =
        Returned (accept_all (WithClientURL to_endpoint (ClientURL to_endpoint)) return_request, l',
                  [WithClientURL to_endpoint (ClientURL to_endpoint)])"
    using nonempty by auto
  from run refused_run have l': "l' = routed" by simp
  have one: "Request refuse_all url_Parse to_endpoint first_request two_forwarders =
     Returned ((None, Some AllCrossNSEFailed), routed,
               [\<lparr>clientURL = Some ''unix:///fwd-a''\<rparr>, \<lparr>clientURL = Some ''unix:///fwd-b''\<rparr>])"
    by (rule refused_run)
  have two: "Request accept_all url_Parse to_endpoint return_request routed =
     Returned ((Some return_connection, None), routed, [\<lparr>clientURL = Some ''tcp://endpoint''\<rparr>])"
    using later l'
    by (simp add: accept_all_def return_wellformed WithClientURL_def ClientURL_def to_endpoint_def)
  let ?none = "two_forwarders\<lparr>endpoints := []\<rparr>"
  have ident0: "getConnectionID ?none (GetConnection first_request) = Returned ''id1''"
    by (simp add: first_wellformed first_ident example_names)
  have absent0: "activeConnection ?none ''id1'' = None"
    by (simp add: two_forwarders_def)
  have fails0: "\<forall>kv\<in>set (endpoints ?none).
      fst (refuse_all (candidateContext url_Parse to_endpoint kv) first_request) = None \<and>
      snd (refuse_all (candidateContext url_Parse to_endpoint kv) first_request) \<noteq> None"
    by simp
  from Request_exhausted [where nxt = refuse_all and parse = url_Parse and ctx = to_endpoint
      and request = first_request and l = ?none and ident = "''id1''"
      and request' = first_request and nxt' = accept_all and parse' = url_Parse
      and ctx' = to_endpoint,
      OF first_wellformed(1) first_wellformed(2) ident0 absent0
      first_wellformed(4) fails0 first_wellformed(1) first_wellformed(2) ident0]
  have three: "Request refuse_all url_Parse to_endpoint first_request ?none =
     Returned ((None, Some AllCrossNSEFailed), ?none, [])"
    by auto
  have refuse: "refuse_all (candidateContext url_Parse to_endpoint
      (''fwd-a'', \<lparr>Url = ''unix:///fwd-a''\<rparr>)) first_request = (None, Some (ChainError ''refused''))"
    by (simp add: refuse_all_def)
  from nonempty refuse one two three show ?thesis by simp
qed

text \<open>
  C3, as it is stated, fails: both candidates refuse, Request returns the
  no-route-available error, and the entry for \<open>''id1''\<close> is left in the table. The next
  establish for \<open>''id1''\<close>, which on the table before would have been accepted through
  \<open>fwd-b\<close>, is handled as a repeat: one delegated call, to the upstream address.
\<close>

theorem Request_exhausted_counterexample:
  "activeConnection two_forwarders ''id1'' = None \<and>
   Request refuse_all url_Parse to_endpoint first_request two_forwarders =
     Returned ((None, Some AllCrossNSEFailed), routed,
               [\<lparr>clientURL = Some ''unix:///fwd-a''\<rparr>, \<lparr>clientURL = Some ''unix:///fwd-b''\<rparr>]) \<and>
   activeConnection routed ''id1'' =
     Some \<lparr>endpointURL = Some ''tcp://endpoint'', interposeNSEURL = Some ''unix:///fwd-a'',
           closingNSE = False\<rparr> \<and>
   Request accept_fwd_b url_Parse to_endpoint first_request routed =
     Returned ((None, Some (ChainError ''refused'')), routed, [\<lparr>clientURL = Some ''tcp://endpoint''\<rparr>]) \<and>
   Request accept_fwd_b url_Parse to_endpoint first_request two_forwarders =
     Returned ((Some first_connection, None), routed,
               [\<lparr>clientURL = Some ''unix:///fwd-a''\<rparr>, \<lparr>clientURL = Some ''unix:///fwd-b''\<rparr>])"
proof -
  have "activeConnection two_forwarders ''id1'' = None"
    by (simp add: two_forwarders_def)
  with refused_run routed_entry repeat_run first_run show ?thesis by simp
qed

section \<open>Close\<close>

lemma Close_existing:
  assumes "getConnectionID l conn = Returned ident"
      and "activeConnection l ident = Some connInfo"
  shows "Close nxt ctx conn l =
           (if \<not> closingNSE connInfo
            then Returned (nxt (WithClientURL ctx (interposeNSEURL connInfo)) conn,
                   l\<lparr>activeConnection := (activeConnection l)(ident \<mapsto> connInfo\<lparr>closingNSE := True\<rparr>)\<rparr>,
                   [WithClientURL ctx (interposeNSEURL connInfo)])
            else Returned (nxt (WithClientURL ctx (endpointURL connInfo)) conn, l,
                   [WithClientURL ctx (endpointURL connInfo)]))"
  using assms by (simp add: Close_def Let_def sync_Load_def)

lemma Close_panics:
  "Close nxt ctx conn l = Panicked p \<longleftrightarrow> getConnectionID l conn = Panicked p"
  by (simp add: Close_def Let_def split: outcome.splits option.splits)

lemma closing_entry:
  "activeConnection closing ''id1'' =
     Some \<lparr>endpointURL = Some ''tcp://endpoint'', interposeNSEURL = Some ''unix:///fwd-a'',
           closingNSE = True\<rparr>"
  by (simp add: closing_def)

lemma closing_routed:
  "closing = routed\<lparr>activeConnection := (activeConnection routed)(''id1'' \<mapsto>
     \<lparr>endpointURL = Some ''tcp://endpoint'', interposeNSEURL = Some ''unix:///fwd-a'',
      closingNSE = False\<rparr>\<lparr>closingNSE := True\<rparr>)\<rparr>"
  by (simp add: closing_def routed_def)

text \<open>
  C5. For every connection id with an Active Route Entry whose closing-phase flag is not
  set, the first Close sets the flag and delegates the close with the context retargeted
  at the entry's recorded cross-connect address; the second Close for the same id, on the
  element the first one left, delegates with the context retargeted at the entry's
  recorded upstream (endpoint) address.
\<close>

theorem Close_two_phase:
  assumes "getConnectionID l conn = Returned ident"
      and "activeConnection l ident = Some connInfo"
      and "\<not> closingNSE connInfo"
      and "getConnectionID l conn' = Returned ident"
      and "l' = l\<lparr>activeConnection := (activeConnection l)(ident \<mapsto> connInfo\<lparr>closingNSE := True\<rparr>)\<rparr>"
  shows "Close nxt ctx conn l =
           Returned (nxt (WithClientURL ctx (interposeNSEURL connInfo)) conn, l',
                     [WithClientURL ctx (interposeNSEURL connInfo)]) \<and>
         Close nxt' ctx' conn' l' =
           Returned (nxt' (WithClientURL ctx' (endpointURL connInfo)) conn', l',
                     [WithClientURL ctx' (endpointURL connInfo)])"
proof -
  have first: "Close nxt ctx conn l =
           Returned (nxt (WithClientURL ctx (interposeNSEURL connInfo)) conn, l',
                     [WithClientURL ctx (interposeNSEURL connInfo)])"
    using Close_existing [OF assms(1) assms(2), of nxt ctx] assms(3) assms(5) by simp
  have id': "getConnectionID l' conn' = Returned ident"
    using assms(4) assms(5) by (simp add: getConnectionID_def)
  have entry': "activeConnection l' ident = Some (connInfo\<lparr>closingNSE := True\<rparr>)"
    using assms(5) by simp
  have second: "Close nxt' ctx' conn' l' =
           Returned (nxt' (WithClientURL ctx' (endpointURL connInfo)) conn', l',
                     [WithClientURL ctx' (endpointURL connInfo)])"
    using Close_existing [OF id' entry', of nxt' ctx'] by simp
  from first second show ?thesis by simp
qed

theorem Close_two_phase_witness:
  "activeConnection routed ''id1'' =
     Some \<lparr>endpointURL = Some ''tcp://endpoint'', interposeNSEURL = Some ''unix:///fwd-a'',
           closingNSE = False\<rparr> \<and>
   Close close_ok to_endpoint (Some first_connection) routed =
     Returned ((Some (), None), closing, [\<lparr>clientURL = Some ''unix:///fwd-a''\<rparr>]) \<and>
   Close close_ok to_endpoint (Some return_connection) closing =
     Returned ((Some (), None), closing, [\<lparr>clientURL = Some ''tcp://endpoint''\<rparr>])"
proof -
  have one: "getConnectionID routed (Some first_connection) = Returned ''id1''"
    by (simp add: first_ident example_names)
  have two: "getConnectionID routed (Some return_connection) = Returned ''id1''"
    by (simp add: return_ident example_names)
  have unset: "\<not> closingNSE \<lparr>endpointURL = Some ''tcp://endpoint'',
      interposeNSEURL = Some ''unix:///fwd-a'', closingNSE = False\<rparr>"
    by simp
  from Close_two_phase [OF one routed_entry unset two closing_routed,
      of close_ok to_endpoint close_ok to_endpoint]
  have "Close close_ok to_endpoint (Some first_connection) routed =
     Returned ((Some (), None), closing, [\<lparr>clientURL = Some ''unix:///fwd-a''\<rparr>]) \<and>
   Close close_ok to_endpoint (Some return_connection) closing =
     Returned ((Some (), None), closing, [\<lparr>clientURL = Some ''tcp://endpoint''\<rparr>])"
    by (simp add: close_ok_def WithClientURL_def to_endpoint_def)
  with routed_entry show ?thesis by simp
qed

subsection \<open>Paths shorter than their index\<close>

text \<open>
  C9, as the code has it. Close does not look at the shape of the path before it derives
  the connection id. For every connection whose current index is greater than 0 and at
  least the number of path segments, the first segment lookup of \<^verbatim>\<open>getConnectionID\<close>
  is out of range and Close panics; the lookups are all in range exactly when the index
  is 0, where none is made, or is less than the number of segments.
\<close>

theorem Close_index_out_of_range:
  "(getConnectionID l conn = Panicked IndexOutOfRange \<longleftrightarrow>
      0 < unat (GetIndex (GetPath conn)) \<and>
      length (GetPathSegments (GetPath conn)) \<le> unat (GetIndex (GetPath conn))) \<and>
   (Close nxt ctx conn l = Panicked IndexOutOfRange \<longleftrightarrow>
      0 < unat (GetIndex (GetPath conn)) \<and>
      length (GetPathSegments (GetPath conn)) \<le> unat (GetIndex (GetPath conn)))"
  by (simp add: Close_panics getConnectionID_def scanSegments_out_of_range)

theorem Close_index_out_of_range_witness:
  "unat (GetIndex (GetPath (Some short_connection))) = 2 \<and>
   length (GetPathSegments (GetPath (Some short_connection))) = 2 \<and>
   getConnectionID routed (Some short_connection) = Panicked IndexOutOfRange \<and>
   Close close_ok to_endpoint (Some short_connection) routed = Panicked IndexOutOfRange \<and>
   Close close_ok to_endpoint (Some first_connection) routed \<noteq> Panicked IndexOutOfRange"
proof -
  have idx: "unat (GetIndex (GetPath (Some short_connection))) = 2"
    by (simp add: short_connection_def getter_defs)
  have len: "length (GetPathSegments (GetPath (Some short_connection))) = 2"
    by (simp add: short_connection_def getter_defs)
  have idx1: "unat (GetIndex (GetPath (Some first_connection))) = 1"
    by (simp add: first_connection_def getter_defs)
  have len1: "length (GetPathSegments (GetPath (Some first_connection))) = 2"
    by (simp add: first_connection_def getter_defs)
  from Close_index_out_of_range [of routed "Some short_connection" close_ok to_endpoint]
  have a: "getConnectionID routed (Some short_connection) = Panicked IndexOutOfRange"
    and b: "Close close_ok to_endpoint (Some short_connection) routed = Panicked IndexOutOfRange"
    by (simp_all add: idx len)
  from Close_index_out_of_range [of routed "Some first_connection" close_ok to_endpoint]
  have c: "Close close_ok to_endpoint (Some first_connection) routed \<noteq> Panicked IndexOutOfRange"
    by (simp add: idx1 len1)
  from idx len a b c show ?thesis by simp
qed

text \<open>
  C9, as it is stated, fails: with index 0 and no segments the index is not less than the
  number of segments, and yet no lookup is made; \<^verbatim>\<open>getConnectionID\<close> returns the
  empty id and Close returns its missing-state error.
\<close>

theorem Close_empty_path_counterexample:
  "unat (GetIndex (GetPath (Some empty_connection))) = 0 \<and>
   length (GetPathSegments (GetPath (Some empty_connection))) = 0 \<and>
   getConnectionID routed (Some empty_connection) = Returned [] \<and>
   Close close_ok to_endpoint (Some empty_connection) routed =
     Returned ((None, Some NoActiveConnection), routed, [])"
proof -
  have idx: "unat (GetIndex (GetPath (Some empty_connection))) = 0"
    by (simp add: empty_connection_def getter_defs)
  have len: "length (GetPathSegments (GetPath (Some empty_connection))) = 0"
    by (simp add: empty_connection_def getter_defs)
  have ident: "getConnectionID routed (Some empty_connection) = Returned []"
    unfolding getConnectionID_def idx by simp
  have none: "activeConnection routed [] = None"
    by (simp add: routed_def)
  have "Close close_ok to_endpoint (Some empty_connection) routed =
     Returned ((None, Some NoActiveConnection), routed, [])"
    by (simp add: Close_def ident sync_Load_def none)
  with idx len ident show ?thesis by simp
qed

subsection \<open>After the closing phase has begun\<close>

lemma Request_entry_kept:
  assumes "activeConnection l k = Some info"
  shows "activeConnection (after (DoRequest nxt parse ctx request) l) k = Some info"
proof (cases "Request nxt parse ctx request l")
  case (Panicked p)
  with assms show ?thesis by simp
next
  case (Returned r)
  have "activeConnection (fst (snd r)) k = Some info"
    using Returned assms
    by (auto simp: Request_def Let_def sync_Load_def rangeEndpoints_entry_kept
             split: if_splits outcome.splits option.splits)
  with Returned show ?thesis by simp
qed

lemma Close_entry_kept:
  assumes "activeConnection l k = Some info" and "closingNSE info"
  shows "activeConnection (after (DoClose nxt ctx conn) l) k = Some info"
proof (cases "Close nxt ctx conn l")
  case (Panicked p)
  with assms show ?thesis by simp
next
  case (Returned r)
  have "activeConnection (fst (snd r)) k = Some info"
    using Returned assms
    by (auto simp: Close_def Let_def sync_Load_def split: if_splits outcome.splits option.splits)
  with Returned show ?thesis by simp
qed

lemma after_entry_kept:
  assumes "activeConnection l k = Some info" and "closingNSE info"
  shows "activeConnection (after op l) k = Some info"
proof (cases op)
  case (DoRequest nxt parse ctx request)
  with Request_entry_kept [OF assms(1)] show ?thesis by simp
next
  case (DoClose nxt ctx conn)
  with Close_entry_kept [OF assms] show ?thesis by simp
next
  case (DoLoadOrStore nm endpoint)
  with assms show ?thesis by (simp add: LoadOrStore_def Let_def)
next
  case (DoDelete nm)
  with assms show ?thesis by (simp add: Delete_def)
qed

lemma after_name: "name (after op l) = name l"
proof (cases op)
  case (DoRequest nxt parse ctx request)
  then show ?thesis
    by (auto simp: Request_def Let_def split: if_splits outcome.splits option.splits)
next
  case (DoClose nxt ctx conn)
  then show ?thesis
    by (auto simp: Close_def Let_def split: if_splits outcome.splits option.splits)
next
  case (DoLoadOrStore nm endpoint)
  then show ?thesis by (simp add: LoadOrStore_def Let_def)
next
  case (DoDelete nm)
  then show ?thesis by (simp add: Delete_def)
qed

lemma afterAll_entry_kept:
  "activeConnection l k = Some info \<Longrightarrow> closingNSE info \<Longrightarrow>
   activeConnection (afterAll ops l) k = Some info"
  by (induction ops arbitrary: l) (simp_all add: after_entry_kept)

lemma afterAll_name: "name (afterAll ops l) = name l"
  by (induction ops arbitrary: l) (simp_all add: after_name)

text \<open>
  C10. Once the closing-phase flag of an Active Route Entry is set, no call clears the
  flag or removes the entry: after any sequence of Request, Close, LoadOrStore and Delete
  calls the entry is the same. So every later Close for the same connection id reaches
  its delegated call, with the context retargeted at the recorded upstream (endpoint)
  address, and leaves the element as it is, as the second Close does.
\<close>

theorem Close_after_closing_phase:
  assumes "activeConnection l ident = Some connInfo"
      and "closingNSE connInfo"
      and "getConnectionID l conn = Returned ident"
  shows "activeConnection (afterAll ops l) ident = Some connInfo \<and>
         Close nxt ctx conn (afterAll ops l) =
           Returned (nxt (WithClientURL ctx (endpointURL connInfo)) conn, afterAll ops l,
                     [WithClientURL ctx (endpointURL connInfo)])"
proof -
  have kept: "activeConnection (afterAll ops l) ident = Some connInfo"
    by (rule afterAll_entry_kept [OF assms(1) assms(2)])
  have ident: "getConnectionID (afterAll ops l) conn = Returned ident"
    using assms(3) getConnectionID_name [OF afterAll_name, of ops l conn] by simp
  from Close_existing [OF ident kept, of nxt ctx] assms(2) kept show ?thesis by simp
qed

text \<open>
  After the first Close: a second Close, a repeat establish, the removal of \<open>fwd-a\<close>
  and the registration of \<open>fwd-c\<close> leave the entry as it is, and the third Close is
  delegated to the upstream address.
\<close>

theorem Close_after_closing_phase_witness:
  "activeConnection closing ''id1'' =
     Some \<lparr>endpointURL = Some ''tcp://endpoint'', interposeNSEURL = Some ''unix:///fwd-a'',
           closingNSE = True\<rparr> \<and>
   afterAll [DoClose close_ok to_endpoint (Some return_connection),
             DoRequest accept_all url_Parse to_endpoint return_request,
             DoDelete ''fwd-a'',
             DoLoadOrStore ''fwd-c'' \<lparr>Url = ''unix:///fwd-c''\<rparr>] closing =
     closing\<lparr>endpoints := [(''fwd-b'', \<lparr>Url = ''unix:///fwd-b''\<rparr>),
                            (''fwd-c'', \<lparr>Url = ''unix:///fwd-c''\<rparr>)]\<rparr> \<and>
   Close close_ok to_endpoint (Some return_connection)
     (closing\<lparr>endpoints := [(''fwd-b'', \<lparr>Url = ''unix:///fwd-b''\<rparr>),
                             (''fwd-c'', \<lparr>Url = ''unix:///fwd-c''\<rparr>)]\<rparr>) =
     Returned ((Some (), None),
       closing\<lparr>endpoints := [(''fwd-b'', \<lparr>Url = ''unix:///fwd-b''\<rparr>),
                              (''fwd-c'', \<lparr>Url = ''unix:///fwd-c''\<rparr>)]\<rparr>,
       [\<lparr>clientURL = Some ''tcp://endpoint''\<rparr>])"
proof -
  let ?ops = "[DoClose close_ok to_endpoint (Some return_connection),
               DoRequest accept_all url_Parse to_endpoint return_request,
               DoDelete ''fwd-a'',
               DoLoadOrStore ''fwd-c'' \<lparr>Url = ''unix:///fwd-c''\<rparr>]"
  let ?end = "closing\<lparr>endpoints := [(''fwd-b'', \<lparr>Url = ''unix:///fwd-b''\<rparr>),
                                     (''fwd-c'', \<lparr>Url = ''unix:///fwd-c''\<rparr>)]\<rparr>"
  have ident: "getConnectionID closing (Some return_connection) = Returned ''id1''"
    by (simp add: return_ident example_names)
  have ident': "getConnectionID closing (GetConnection return_request) = Returned ''id1''"
    by (simp add: return_wellformed ident)
  have set: "closingNSE \<lparr>endpointURL = Some ''tcp://endpoint'',
      interposeNSEURL = Some ''unix:///fwd-a'', closingNSE = True\<rparr>"
    by simp
  have second: "after (DoClose close_ok to_endpoint (Some return_connection)) closing = closing"
    using Close_existing [OF ident closing_entry, of close_ok to_endpoint] by simp
  have repeat: "after (DoRequest accept_all url_Parse to_endpoint return_request) closing = closing"
    using Request_existing [OF return_wellformed(1) return_wellformed(2) ident' closing_entry,
        of accept_all url_Parse to_endpoint]
    by (simp add: to_endpoint_def ClientURL_def)
  have registry: "after (DoLoadOrStore ''fwd-c'' \<lparr>Url = ''unix:///fwd-c''\<rparr>)
      (after (DoDelete ''fwd-a'') closing) = ?end"
    by (simp add: Delete_def LoadOrStore_def Map_Delete_def Map_LoadOrStore_def Let_def
          closing_def two_forwarders_def)
  have run: "afterAll ?ops closing = ?end"
    by (simp only: afterAll.simps second repeat registry)
  from Close_after_closing_phase [OF closing_entry set ident, of ?ops close_ok to_endpoint]
  have "Close close_ok to_endpoint (Some return_connection) ?end =
     Returned ((Some (), None), ?end, [\<lparr>clientURL = Some ''tcp://endpoint''\<rparr>])"
    unfolding run by (simp add: close_ok_def WithClientURL_def to_endpoint_def)
  with closing_entry run show ?thesis by simp
qed

section \<open>The order of the endpoint pipeline\<close>

lemma chain_Request_prefix: "prefix (fst (chain_Request es terminal c)) (map fst es)"
  by (induction es arbitrary: c) (auto split: action.splits)

lemma chain_Request_all:
  "\<forall>e\<in>set es. \<forall>c. \<exists>c' post. snd e c = Delegate c' post \<Longrightarrow>
   fst (chain_Request es terminal c) = map fst es"
proof (induction es arbitrary: c)
  case Nil
  then show ?case by simp
next
  case (Cons e es)
  from Cons.prems obtain c' post where d: "snd e c = Delegate c' post" by fastforce
  from Cons.prems have "\<forall>e\<in>set es. \<forall>c. \<exists>c' post. snd e c = Delegate c' post" by simp
  from Cons.IH [OF this] d show ?case by simp
qed

lemma NewServer_names:
  "map fst (NewServer nm rp cp a s m t u add) =
     [Authorize, SetId, Monitor, Timeout, UpdatePath] @ map Additional [0..<length add]"
proof -
  have "map (\<lambda>ih. Additional (fst ih)) (enumerate 0 add) =
      map Additional (map fst (enumerate 0 add))"
    by (simp add: comp_def del: map_fst_enumerate)
  then show ?thesis by (simp add: NewServer_def comp_def)
qed

lemma NewServer_handlers:
  "map snd (NewServer nm rp cp a s m t u add) = [a rp cp, s nm, m, t, u nm] @ add"
  by (simp add: NewServer_def comp_def)

lemma delegates_pass: "delegates pass"
  by (simp add: delegates_def pass_def)

text \<open>
  C8. NewServer composes the chain in one fixed order: the authorization check first,
  then identity stamping, connection monitoring, idle-timeout supervision and path-segment
  stamping, and then the caller's additional elements in the order given. An establish
  call enters the elements in that order: the elements entered are always an initial
  part of the list, and the whole list when every element delegates.
\<close>

theorem NewServer_order:
  "map fst (NewServer nm rp cp a s m t u add) =
     [Authorize, SetId, Monitor, Timeout, UpdatePath] @ map Additional [0..<length add] \<and>
   map snd (NewServer nm rp cp a s m t u add) = [a rp cp, s nm, m, t, u nm] @ add \<and>
   prefix (fst (chain_Request (NewServer nm rp cp a s m t u add) terminal c))
     ([Authorize, SetId, Monitor, Timeout, UpdatePath] @ map Additional [0..<length add]) \<and>
   ((\<forall>h\<in>set ([a rp cp, s nm, m, t, u nm] @ add). delegates h) \<longrightarrow>
      fst (chain_Request (NewServer nm rp cp a s m t u add) terminal c) =
        [Authorize, SetId, Monitor, Timeout, UpdatePath] @ map Additional [0..<length add])"
proof -
  let ?es = "NewServer nm rp cp a s m t u add"
  let ?names = "[Authorize, SetId, Monitor, Timeout, UpdatePath] @ map Additional [0..<length add]"
  have names: "map fst ?es = ?names" by (rule NewServer_names)
  have handlers: "map snd ?es = [a rp cp, s nm, m, t, u nm] @ add" by (rule NewServer_handlers)
  have pre: "prefix (fst (chain_Request ?es terminal c)) ?names"
    using chain_Request_prefix [of ?es terminal c] names by simp
  have full: "(\<forall>h\<in>set ([a rp cp, s nm, m, t, u nm] @ add). delegates h) \<longrightarrow>
      fst (chain_Request ?es terminal c) = ?names"
  proof
    assume all: "\<forall>h\<in>set ([a rp cp, s nm, m, t, u nm] @ add). delegates h"
    have "\<forall>e\<in>set ?es. \<forall>c. \<exists>c' post. snd e c = Delegate c' post"
    proof
      fix e assume "e \<in> set ?es"
      then have "snd e \<in> set (map snd ?es)" by simp
      with handlers have "snd e \<in> set ([a rp cp, s nm, m, t, u nm] @ add)" by simp
      with all have "delegates (snd e)" by blast
      then show "\<forall>c. \<exists>c' post. snd e c = Delegate c' post" by (simp add: delegates_def)
    qed
    from chain_Request_all [OF this, of terminal c] names
    show "fst (chain_Request ?es terminal c) = ?names" by simp
  qed
  from names handlers pre full show ?thesis by blast
qed

theorem NewServer_order_witness:
  "chain_Request
     (NewServer ''nse'' () () (\<lambda>rp cp. pass) (\<lambda>n. pass) pass pass (\<lambda>n. pass) [pass, pass])
     (\<lambda>c. c) 0 =
     ([Authorize, SetId, Monitor, Timeout, UpdatePath, Additional 0, Additional 1], 7)"
proof -
  let ?es = "NewServer ''nse'' () () (\<lambda>rp cp. pass) (\<lambda>n. pass) pass pass (\<lambda>n. pass) [pass, pass]"
  have h: "\<forall>h\<in>set ([(\<lambda>rp cp. pass) () (), (\<lambda>n. pass) ''nse'', pass, pass, (\<lambda>n. pass) ''nse'']
      @ [pass, pass]). delegates h"
    by (simp add: delegates_pass)
  have v: "snd (chain_Request ?es (\<lambda>c. c) 0) = 7"
    by (simp add: NewServer_def pass_def enumerate_eq_zip)
  from NewServer_order [of "''nse''" "()" "()" "\<lambda>rp cp. pass" "\<lambda>n. pass" pass pass
      "\<lambda>n. pass" "[pass, pass]" "\<lambda>c. c" 0] h
  have "fst (chain_Request ?es (\<lambda>c. c) 0) =
     [Authorize, SetId, Monitor, Timeout, UpdatePath, Additional 0, Additional 1]"
    by (simp add: upt_rec)
  with v show ?thesis by (simp add: prod_eq_iff)
qed

end
